theory Spec2Isabelle
  imports Complex_Main "HOL-Library.Char_ord" "HOL-Library.List_Lexorder" "HOL-Library.Multiset"
begin

section \<open>The Daily Sheet ledger of the flower shop\<close>

text \<open>
  The two Streamlit front ends (\<^verbatim>\<open>app_v1.0.py\<close> and \<^verbatim>\<open>flower-shop_app.py\<close>) keep the
  ledger in the SQLite table \<^verbatim>\<open>DailySheet\<close>. Their function \<^verbatim>\<open>recalculate_debts\<close> and
  their Daily Sheet forms are the same text up to widget keys, so one embedding covers
  both. A SQLite \<^verbatim>\<open>REAL\<close> and a Python \<^verbatim>\<open>float\<close> are modelled as \<^typ>\<open>real\<close>: rounding is
  not part of the model. Columns never hold \<^verbatim>\<open>NULL\<close>, since every writer of the
  application passes a string or a number.
\<close>

subsection \<open>Tables\<close>

text \<open>
  One row of \<^verbatim>\<open>DailySheet\<close>. The column \<^verbatim>\<open>Id\<close> is called \<open>RowId\<close> here, because \<open>Id\<close> is
  the identity relation of HOL.
\<close>

record row =
  RowId :: int
  Date :: string
  Name :: string
  FlowerName :: string
  Qty :: real
  Rate :: real
  Amount :: real
  DebitCredit :: string
  Debt :: real
  BuyerName :: string

text \<open>One row of \<^verbatim>\<open>DailyFlowerPrice\<close>, with primary key \<^verbatim>\<open>(FlowerName, Date)\<close>.\<close>

record price_row =
  PriceFlowerName :: string
  PriceDate :: string
  Price :: real

text \<open>
  The connection: the rows of the two tables in storage order, and the entry of
  \<^verbatim>\<open>sqlite_sequence\<close> that \<^verbatim>\<open>AUTOINCREMENT\<close> keeps for \<^verbatim>\<open>DailySheet\<close> (the largest
  \<^verbatim>\<open>Id\<close> ever handed out).
\<close>

record db =
  DailySheet :: "row list"
  DailySheet_seq :: int
  DailyFlowerPrice :: "price_row list"

text \<open>\<^verbatim>\<open>init_db\<close> on a fresh file: the tables exist and are empty.\<close>

definition init_db :: db where
  "init_db = \<lparr>DailySheet = [], DailySheet_seq = 0, DailyFlowerPrice = []\<rparr>"

text \<open>\<^verbatim>\<open>Id INTEGER PRIMARY KEY\<close>: no two rows of a table share an \<^verbatim>\<open>Id\<close>.\<close>

definition primary_key_ok :: "db \<Rightarrow> bool" where
  "primary_key_ok conn = distinct (map RowId (DailySheet conn))"

subsection \<open>The recalculation of a buyer's running debt\<close>

text \<open>
  \<^verbatim>\<open>SELECT * FROM DailySheet WHERE DebitCredit = 'Credit' and BuyerName = ? ORDER BY Id\<close>
\<close>

definition select_credit_rows :: "db \<Rightarrow> string \<Rightarrow> row list" where
  "select_credit_rows conn buyer_name =
     sort_key RowId
       (filter (\<lambda>r. DebitCredit r = ''Credit'' \<and> BuyerName r = buyer_name) (DailySheet conn))"

text \<open>
  \<^verbatim>\<open>UPDATE DailySheet SET Debt = ? WHERE DebitCredit = 'Credit' and Id = ?\<close>
\<close>

definition update_debt :: "real \<Rightarrow> int \<Rightarrow> db \<Rightarrow> db" where
  "update_debt running_debt row_id conn =
     conn\<lparr>DailySheet :=
       map (\<lambda>r. if DebitCredit r = ''Credit'' \<and> RowId r = row_id
                 then r\<lparr>Debt := running_debt\<rparr> else r)
           (DailySheet conn)\<rparr>"

text \<open>
  The body of \<^verbatim>\<open>for index, row in df.iterrows()\<close>: the rows of the data frame were read
  before the loop, the updates go to the table.
\<close>

fun recalculate_loop :: "row list \<Rightarrow> real \<Rightarrow> db \<Rightarrow> db" where
  "recalculate_loop [] running_debt conn = conn"
| "recalculate_loop (r # df) running_debt conn =
     (let signed = (if DebitCredit r = ''Credit'' then Amount r else - Amount r);
          running_debt' = running_debt + signed
      in recalculate_loop df running_debt' (update_debt running_debt' (RowId r) conn))"

definition recalculate_debts :: "db \<Rightarrow> string \<Rightarrow> db" where
  "recalculate_debts conn buyer_name =
     (let df = select_credit_rows conn buyer_name
      in if df = [] then conn else recalculate_loop df 0 conn)"

text \<open>
  The simplified recalculation that the unreachable \<^verbatim>\<open>else\<close> branch suggests: every
  fetched row adds its \<^verbatim>\<open>Amount\<close> to the running total.
\<close>

fun simplified_loop :: "row list \<Rightarrow> real \<Rightarrow> db \<Rightarrow> db" where
  "simplified_loop [] running_debt conn = conn"
| "simplified_loop (r # df) running_debt conn =
     (let running_debt' = running_debt + Amount r
      in simplified_loop df running_debt' (update_debt running_debt' (RowId r) conn))"

definition simplified_recalculate_debts :: "db \<Rightarrow> string \<Rightarrow> db" where
  "simplified_recalculate_debts conn buyer_name =
     (let df = select_credit_rows conn buyer_name
      in if df = [] then conn else simplified_loop df 0 conn)"

subsection \<open>The Daily Sheet forms\<close>

text \<open>
  The values of the widgets of a Daily Sheet form when it is submitted. \<open>selected_date\<close>
  is the date widget's value after \<^verbatim>\<open>strftime("%Y-%m-%d")\<close>.
\<close>

record form =
  selected_date :: string
  name :: string
  flower_name :: string
  qty :: real
  rate :: real
  debit_credit :: string
  buyer_name :: string

text \<open>What the page shows after a submission: \<^verbatim>\<open>st.error\<close> or \<^verbatim>\<open>st.success\<close>.\<close>

datatype message = st_error string | st_success string

text \<open>
  The column \<^verbatim>\<open>SignedAmount\<close> that both forms add to the buyer's rows:
  \<^verbatim>\<open>row['Amount'] if row['DebitCredit'] == 'Credit' else -row['Amount']\<close>.
\<close>

definition SignedAmount :: "row \<Rightarrow> real" where
  "SignedAmount r = (if DebitCredit r = ''Credit'' then Amount r else - Amount r)"

text \<open>
  \<^verbatim>\<open>SELECT * FROM DailySheet WHERE BuyerName = ?\<close> and the sum of \<^verbatim>\<open>SignedAmount\<close>, or
  \<^verbatim>\<open>0.0\<close> when the buyer has no row.
\<close>

definition current_debt :: "db \<Rightarrow> string \<Rightarrow> real" where
  "current_debt conn b =
     (let df_transactions = filter (\<lambda>r. BuyerName r = b) (DailySheet conn)
      in if df_transactions \<noteq> [] then sum_list (map SignedAmount df_transactions) else 0)"

text \<open>
  \<^verbatim>\<open>INSERT INTO DailySheet (Date, ..., BuyerName) VALUES (...)\<close>. With \<^verbatim>\<open>AUTOINCREMENT\<close>
  the new \<^verbatim>\<open>Id\<close> is one more than the largest \<^verbatim>\<open>Id\<close> that the table holds or has ever
  held. The row that is passed in carries no \<^verbatim>\<open>Id\<close> of its own: its \<open>RowId\<close> is
  overwritten.
\<close>

definition next_id :: "db \<Rightarrow> int" where
  "next_id conn = fold max (map RowId (DailySheet conn)) (DailySheet_seq conn) + 1"

definition insert_row :: "db \<Rightarrow> row \<Rightarrow> db" where
  "insert_row conn r =
     conn\<lparr>DailySheet := DailySheet conn @ [r\<lparr>RowId := next_id conn\<rparr>],
          DailySheet_seq := next_id conn\<rparr>"

text \<open>
  The form \<^verbatim>\<open>Add Transaction\<close> (\<^verbatim>\<open>add_transaction_form\<close> in the second front end), from
  the computation of \<^verbatim>\<open>amount\<close> to the end of the \<^verbatim>\<open>if submit_add\<close> block.
\<close>

definition add_transaction :: "db \<Rightarrow> form \<Rightarrow> bool \<Rightarrow> db \<times> message option" where
  "add_transaction conn f submit_add =
     (let amount = qty f * rate f;
          new_debt = (if debit_credit f = ''Credit''
                      then current_debt conn (buyer_name f) + amount
                      else - amount)
      in if submit_add \<and> name f \<noteq> [] \<and> flower_name f \<noteq> [] then
           if debit_credit f = ''Credit'' \<and> buyer_name f = [] then
             (conn, Some (st_error
                ''Buyer Name is required when Debit/Credit is set to 'Credit'.''))
           else
             (recalculate_debts
                (insert_row conn
                   \<lparr>RowId = 0, Date = selected_date f, Name = name f,
                    FlowerName = flower_name f, Qty = qty f, Rate = rate f,
                    Amount = amount, DebitCredit = debit_credit f, Debt = new_debt,
                    BuyerName = buyer_name f\<rparr>)
                (buyer_name f),
              Some (st_success ''Transaction added successfully!''))
         else (conn, None))"

text \<open>A history of submissions of the add form, each with the button pressed.\<close>

fun add_transactions :: "db \<Rightarrow> form list \<Rightarrow> db" where
  "add_transactions conn [] = conn"
| "add_transactions conn (f # fs) = add_transactions (fst (add_transaction conn f True)) fs"

text \<open>
  \<^verbatim>\<open>UPDATE DailySheet SET Date = ?, ..., BuyerName = ? WHERE Id = ?\<close> and
  \<^verbatim>\<open>DELETE FROM DailySheet WHERE Id = ?\<close>.
\<close>

definition update_row :: "db \<Rightarrow> int \<Rightarrow> row \<Rightarrow> db" where
  "update_row conn selected_id new =
     conn\<lparr>DailySheet :=
       map (\<lambda>r. if RowId r = selected_id then new\<lparr>RowId := RowId r\<rparr> else r)
           (DailySheet conn)\<rparr>"

definition delete_row :: "db \<Rightarrow> int \<Rightarrow> db" where
  "delete_row conn selected_id =
     conn\<lparr>DailySheet := filter (\<lambda>r. RowId r \<noteq> selected_id) (DailySheet conn)\<rparr>"

text \<open>
  The form \<^verbatim>\<open>Edit Transaction\<close>. It is drawn for the transaction picked in the select box;
  the option lists \<open>customers\<close>, \<open>flowers\<close> and \<open>buyers\<close> are what \<^verbatim>\<open>get_customers\<close>,
  \<^verbatim>\<open>get_flowers\<close> and \<^verbatim>\<open>get_buyers\<close> returned. \<^verbatim>\<open>list.index\<close> raises \<^verbatim>\<open>ValueError\<close>
  when the stored name is not among the options, and indexing the result of
  \<^verbatim>\<open>fetchone\<close> raises \<^verbatim>\<open>TypeError\<close> when no row has the \<^verbatim>\<open>Id\<close>. The \<^verbatim>\<open>Date\<close> column always
  holds the output of \<^verbatim>\<open>strftime\<close>, so \<^verbatim>\<open>strptime\<close> is taken to succeed.
\<close>

datatype button = Update | Delete

datatype py_error = ValueError | TypeError

definition edit_transaction ::
  "db \<Rightarrow> string list \<Rightarrow> string list \<Rightarrow> string list \<Rightarrow> int \<Rightarrow> form \<Rightarrow> button option
     \<Rightarrow> py_error + db \<times> message option" where
  "edit_transaction conn customers flowers buyers selected_id f pressed =
     (if DailySheet conn = [] \<or> selected_id = 0 then Inr (conn, None)
      else case find (\<lambda>r. RowId r = selected_id) (DailySheet conn) of
        None \<Rightarrow> Inl TypeError
      | Some current_data \<Rightarrow>
          if Name current_data \<notin> set customers \<or> FlowerName current_data \<notin> set flowers
             \<or> BuyerName current_data \<notin> set buyers
          then Inl ValueError
          else
            let old_buyer = BuyerName current_data;
                old_signed = (if DebitCredit current_data = ''Credit''
                              then Amount current_data else - Amount current_data);
                amount = qty f * rate f;
                temp_debt = (if buyer_name f = old_buyer
                             then current_debt conn (buyer_name f) - old_signed
                             else current_debt conn (buyer_name f));
                signed_amount = (if debit_credit f = ''Credit'' then amount else - amount);
                new_debt = temp_debt + signed_amount
            in case pressed of
                 None \<Rightarrow> Inr (conn, None)
               | Some Update \<Rightarrow>
                   let conn1 = update_row conn selected_id
                         \<lparr>RowId = selected_id, Date = selected_date f, Name = name f,
                          FlowerName = flower_name f, Qty = qty f, Rate = rate f,
                          Amount = amount, DebitCredit = debit_credit f, Debt = new_debt,
                          BuyerName = buyer_name f\<rparr>;
                       conn2 = recalculate_debts conn1 old_buyer;
                       conn3 = (if buyer_name f \<noteq> old_buyer
                                then recalculate_debts conn2 (buyer_name f) else conn2)
                   in Inr (conn3, Some (st_success ''Transaction updated successfully!''))
               | Some Delete \<Rightarrow>
                   Inr (recalculate_debts (delete_row conn selected_id) old_buyer, None))"

subsection \<open>Price lookups\<close>

text \<open>
  The rate that the add form is filled with:
  \<^verbatim>\<open>SELECT Price FROM DailyFlowerPrice WHERE FlowerName = ? AND Date = ?\<close>, then
  \<^verbatim>\<open>default_rate = result[0] if result else 0.0\<close>.
\<close>

definition default_rate :: "db \<Rightarrow> string \<Rightarrow> string \<Rightarrow> real" where
  "default_rate conn flower date_str =
     (case find (\<lambda>p. PriceFlowerName p = flower \<and> PriceDate p = date_str)
             (DailyFlowerPrice conn) of
        Some result \<Rightarrow> Price result
      | None \<Rightarrow> 0)"

text \<open>
  The desktop front end (\<^verbatim>\<open>desktop_app.py\<close>) has a table \<^verbatim>\<open>flower_prices\<close> of its own, and
  \<^verbatim>\<open>fetch_today_price\<close> reads the most recent price on or before the date:
  \<^verbatim>\<open>WHERE flower_id=? AND price_date<=? ORDER BY price_date DESC LIMIT 1\<close>. SQLite compares
  the \<^verbatim>\<open>TEXT\<close> dates byte by byte, which is the lexicographic order on \<^typ>\<open>string\<close>.
\<close>

record flower_price =
  flower_id :: int
  price_date :: string
  price :: real

definition fetch_today_price :: "flower_price list \<Rightarrow> int \<Rightarrow> string \<Rightarrow> real option" where
  "fetch_today_price flower_prices fid ymd =
     (case rev (sort_key price_date
                  (filter (\<lambda>p. flower_id p = fid \<and> price_date p \<le> ymd) flower_prices)) of
        [] \<Rightarrow> None
      | p # _ \<Rightarrow> Some (price p))"

subsection \<open>The prefix-sum invariant\<close>

text \<open>
  The running sums of a list of amounts, and the invariant of a buyer: the \<^verbatim>\<open>Debt\<close> of the
  buyer's Credit rows, in ascending \<^verbatim>\<open>Id\<close>, are the running sums of their amounts.
\<close>

definition prefix_sums :: "real list \<Rightarrow> real list" where
  "prefix_sums amounts = map (\<lambda>k. sum_list (take (Suc k) amounts)) [0..<length amounts]"

definition prefix_sum_invariant :: "db \<Rightarrow> string \<Rightarrow> bool" where
  "prefix_sum_invariant conn b =
     (map Debt (select_credit_rows conn b)
        = prefix_sums (map Amount (select_credit_rows conn b)))"

subsection \<open>Auxiliary functions\<close>

text \<open>
  What the loop leaves in the \<^verbatim>\<open>Debt\<close> of the rows with a given \<^verbatim>\<open>Id\<close>: the running total
  of the last fetched row with that \<^verbatim>\<open>Id\<close>, if there is one. \<open>write_debt\<close> is the effect
  of the whole loop on one row of the table.
\<close>

fun last_written :: "row list \<Rightarrow> real \<Rightarrow> int \<Rightarrow> real option" where
  "last_written [] run i = None"
| "last_written (r # df) run i =
     (case last_written df (run + SignedAmount r) i of
        Some v \<Rightarrow> Some v
      | None \<Rightarrow> if RowId r = i then Some (run + SignedAmount r) else None)"

definition write_debt :: "row list \<Rightarrow> real \<Rightarrow> row \<Rightarrow> row" where
  "write_debt df run r =
     (if DebitCredit r = ''Credit''
      then (case last_written df run (RowId r) of Some v \<Rightarrow> r\<lparr>Debt := v\<rparr> | None \<Rightarrow> r)
      else r)"

text \<open>
  A small ledger: buyer \<open>B1\<close> has the Credit rows 1 and 3 and the Debit row 2, buyer \<open>B2\<close>
  has the Credit row 4. The stored debts of \<open>B1\<close> are stale.
\<close>

definition ledger_example :: db where
  "ledger_example =
     \<lparr>DailySheet =
        [\<lparr>RowId = 1, Date = ''2024-03-02'', Name = ''Mani'', FlowerName = ''Rose'', Qty = 10,
          Rate = 10, Amount = 100, DebitCredit = ''Credit'', Debt = 0, BuyerName = ''B1''\<rparr>,
         \<lparr>RowId = 2, Date = ''2024-03-02'', Name = ''Mani'', FlowerName = ''Rose'', Qty = 5,
          Rate = 10, Amount = 50, DebitCredit = ''Debit'', Debt = - 50, BuyerName = ''B1''\<rparr>,
         \<lparr>RowId = 3, Date = ''2024-03-03'', Name = ''Mani'', FlowerName = ''Lily'', Qty = 10,
          Rate = 20, Amount = 200, DebitCredit = ''Credit'', Debt = 7, BuyerName = ''B1''\<rparr>,
         \<lparr>RowId = 4, Date = ''2024-03-03'', Name = ''Ravi'', FlowerName = ''Rose'', Qty = 7,
          Rate = 10, Amount = 70, DebitCredit = ''Credit'', Debt = 70, BuyerName = ''B2''\<rparr>],
      DailySheet_seq = 4,
      DailyFlowerPrice = []\<rparr>"

text \<open>
  Submissions of the add form: a Debit entry for buyer \<open>B1\<close>, and a Credit entry with the
  buyer left empty.
\<close>

definition debit_form :: form where
  "debit_form =
     \<lparr>selected_date = ''2024-03-04'', name = ''Mani'', flower_name = ''Rose'', qty = 3,
      rate = 10, debit_credit = ''Debit'', buyer_name = ''B1''\<rparr>"

definition credit_form_no_buyer :: form where
  "credit_form_no_buyer =
     \<lparr>selected_date = ''2024-03-04'', name = ''Mani'', flower_name = ''Rose'', qty = 3,
      rate = 10, debit_credit = ''Credit'', buyer_name = []\<rparr>"

text \<open>
  A price table of the desktop front end: flower 1 has an explicit price of zero on the
  first of March, flower 2 has no price before the ninth.
\<close>

definition prices_example :: "flower_price list" where
  "prices_example =
     [\<lparr>flower_id = 1, price_date = ''2024-03-01'', price = 0\<rparr>,
      \<lparr>flower_id = 1, price_date = ''2024-03-03'', price = 12\<rparr>,
      \<lparr>flower_id = 2, price_date = ''2024-03-09'', price = 15\<rparr>]"

text \<open>
  A Credit entry for buyer \<open>B2\<close> dated before the buyer's existing row, the edit that moves
  row 3 from buyer \<open>B1\<close> to buyer \<open>B2\<close>, and the ledger after that edit.
\<close>

definition earlier_credit_form :: form where
  "earlier_credit_form =
     \<lparr>selected_date = ''2024-01-15'', name = ''Ravi'', flower_name = ''Rose'', qty = 3,
      rate = 10, debit_credit = ''Credit'', buyer_name = ''B2''\<rparr>"

definition move_form :: form where
  "move_form =
     \<lparr>selected_date = ''2024-03-03'', name = ''Mani'', flower_name = ''Lily'', qty = 10,
      rate = 20, debit_credit = ''Credit'', buyer_name = ''B2''\<rparr>"

definition ledger_moved :: db where
  "ledger_moved =
     \<lparr>DailySheet =
        [\<lparr>RowId = 1, Date = ''2024-03-02'', Name = ''Mani'', FlowerName = ''Rose'', Qty = 10,
          Rate = 10, Amount = 100, DebitCredit = ''Credit'', Debt = 100, BuyerName = ''B1''\<rparr>,
         \<lparr>RowId = 2, Date = ''2024-03-02'', Name = ''Mani'', FlowerName = ''Rose'', Qty = 5,
          Rate = 10, Amount = 50, DebitCredit = ''Debit'', Debt = - 50, BuyerName = ''B1''\<rparr>,
         \<lparr>RowId = 3, Date = ''2024-03-03'', Name = ''Mani'', FlowerName = ''Lily'', Qty = 10,
          Rate = 20, Amount = 200, DebitCredit = ''Credit'', Debt = 200, BuyerName = ''B2''\<rparr>,
         \<lparr>RowId = 4, Date = ''2024-03-03'', Name = ''Ravi'', FlowerName = ''Rose'', Qty = 7,
          Rate = 10, Amount = 70, DebitCredit = ''Credit'', Debt = 270, BuyerName = ''B2''\<rparr>],
      DailySheet_seq = 4,
      DailyFlowerPrice = []\<rparr>"

text \<open>
  Histories of submissions. A submission is accepted when it leads to an \<^verbatim>\<open>INSERT\<close>;
  \<open>inserted_row\<close> is the row it passes, \<open>credit_amounts\<close> lists the amounts of the accepted
  Credit submissions for a buyer, and \<open>credit_entries\<close> the \<^verbatim>\<open>Id\<close> and the amount of the
  buyer's Credit rows in ascending \<^verbatim>\<open>Id\<close>.
\<close>

definition accepted :: "form \<Rightarrow> bool" where
  "accepted f \<longleftrightarrow>
     name f \<noteq> [] \<and> flower_name f \<noteq> [] \<and> \<not> (debit_credit f = ''Credit'' \<and> buyer_name f = [])"

definition inserted_row :: "db \<Rightarrow> form \<Rightarrow> row" where
  "inserted_row conn f =
     \<lparr>RowId = 0, Date = selected_date f, Name = name f, FlowerName = flower_name f,
      Qty = qty f, Rate = rate f, Amount = qty f * rate f, DebitCredit = debit_credit f,
      Debt = (if debit_credit f = ''Credit''
              then current_debt conn (buyer_name f) + qty f * rate f
              else - (qty f * rate f)),
      BuyerName = buyer_name f\<rparr>"

definition credit_amounts :: "form list \<Rightarrow> string \<Rightarrow> real list" where
  "credit_amounts fs b =
     map (\<lambda>f. qty f * rate f)
       (filter (\<lambda>f. accepted f \<and> debit_credit f = ''Credit'' \<and> buyer_name f = b) fs)"

definition credit_entries :: "db \<Rightarrow> string \<Rightarrow> (int \<times> real) list" where
  "credit_entries conn b = map (\<lambda>r. (RowId r, Amount r)) (select_credit_rows conn b)"

text \<open>
  Three Credit entries for buyer \<open>B1\<close>, and the ledger that is left when the second of them
  is deleted again.
\<close>

definition credit_form_a :: form where
  "credit_form_a =
     \<lparr>selected_date = ''2024-03-01'', name = ''Mani'', flower_name = ''Rose'', qty = 10,
      rate = 10, debit_credit = ''Credit'', buyer_name = ''B1''\<rparr>"

definition credit_form_b :: form where
  "credit_form_b =
     \<lparr>selected_date = ''2024-03-02'', name = ''Mani'', flower_name = ''Lily'', qty = 10,
      rate = 20, debit_credit = ''Credit'', buyer_name = ''B1''\<rparr>"

definition credit_form_c :: form where
  "credit_form_c =
     \<lparr>selected_date = ''2024-03-03'', name = ''Mani'', flower_name = ''Rose'', qty = 5,
      rate = 10, debit_credit = ''Credit'', buyer_name = ''B1''\<rparr>"

definition ledger_after_delete :: db where
  "ledger_after_delete =
     \<lparr>DailySheet =
        [\<lparr>RowId = 1, Date = ''2024-03-01'', Name = ''Mani'', FlowerName = ''Rose'', Qty = 10,
          Rate = 10, Amount = 100, DebitCredit = ''Credit'', Debt = 100, BuyerName = ''B1''\<rparr>,
         \<lparr>RowId = 3, Date = ''2024-03-03'', Name = ''Mani'', FlowerName = ''Rose'', Qty = 5,
          Rate = 10, Amount = 50, DebitCredit = ''Credit'', Debt = 150, BuyerName = ''B1''\<rparr>],
      DailySheet_seq = 3,
      DailyFlowerPrice = []\<rparr>"

section \<open>Properties of the recalculation\<close>

subsection \<open>The loop, row by row\<close>

lemma write_debt_Nil [simp]: "write_debt [] run = (\<lambda>r. r)"
  by (rule ext) (simp add: write_debt_def)

lemma recalculate_loop_rows:
  "recalculate_loop df run conn = conn\<lparr>DailySheet := map (write_debt df run) (DailySheet conn)\<rparr>"
proof (induction df arbitrary: run conn)
  case Nil
  show ?case by simp
next
  case (Cons r df)
  have step: "write_debt df (run + SignedAmount r)
        (if DebitCredit x = ''Credit'' \<and> RowId x = RowId r
         then x\<lparr>Debt := run + SignedAmount r\<rparr> else x)
      = write_debt (r # df) run x" for x
    by (simp add: write_debt_def split: option.splits)
  show ?case
    by (simp add: Cons.IH update_debt_def Let_def SignedAmount_def [symmetric] comp_def step)
qed

lemma write_debt_fields [simp]:
  "RowId (write_debt df run r) = RowId r"
  "Date (write_debt df run r) = Date r"
  "Name (write_debt df run r) = Name r"
  "FlowerName (write_debt df run r) = FlowerName r"
  "Qty (write_debt df run r) = Qty r"
  "Rate (write_debt df run r) = Rate r"
  "Amount (write_debt df run r) = Amount r"
  "DebitCredit (write_debt df run r) = DebitCredit r"
  "BuyerName (write_debt df run r) = BuyerName r"
  by (simp_all add: write_debt_def split: option.splits)

lemma SignedAmount_write_debt [simp]: "SignedAmount (write_debt df run r) = SignedAmount r"
  by (simp add: SignedAmount_def)

lemma write_debt_only_Debt: "write_debt df run r = r\<lparr>Debt := Debt (write_debt df run r)\<rparr>"
  by (simp add: write_debt_def split: option.splits)

lemma write_debt_idem: "write_debt df run (write_debt df run r) = write_debt df run r"
  by (simp add: write_debt_def split: option.splits)

lemma recalculate_debts_rows:
  "recalculate_debts conn b =
     conn\<lparr>DailySheet := map (write_debt (select_credit_rows conn b) 0) (DailySheet conn)\<rparr>"
  by (simp add: recalculate_debts_def Let_def recalculate_loop_rows)

subsection \<open>The fetch\<close>

lemma insort_key_map_commute:
  assumes "\<And>x. f (g x) = f x"
  shows "insort_key f (g x) (map g ys) = map g (insort_key f x ys)"
  using assms by (induction ys) simp_all

lemma sort_key_map_commute:
  assumes "\<And>x. f (g x) = f x"
  shows "sort_key f (map g xs) = map g (sort_key f xs)"
  using assms by (induction xs) (simp_all add: insort_key_map_commute)

lemma distinct_map_sort_key:
  "distinct (map f (sort_key g xs)) \<longleftrightarrow> distinct (map f xs)"
proof -
  have "mset (map f (sort_key g xs)) = mset (map f xs)" by simp
  then show ?thesis by (metis distinct_count_atmost_1 set_mset_mset)
qed

lemma select_credit_rows_map:
  assumes "\<And>x. RowId (g x) = RowId x" "\<And>x. DebitCredit (g x) = DebitCredit x"
    "\<And>x. BuyerName (g x) = BuyerName x"
  shows "select_credit_rows (conn\<lparr>DailySheet := map g (DailySheet conn)\<rparr>) b
           = map g (select_credit_rows conn b)"
  using assms by (simp add: select_credit_rows_def filter_map comp_def sort_key_map_commute)

lemma select_credit_rows_recalculate:
  "select_credit_rows (recalculate_debts conn b) b' =
     map (write_debt (select_credit_rows conn b) 0) (select_credit_rows conn b')"
  by (simp add: recalculate_debts_rows select_credit_rows_map)

lemma select_credit_rows_set:
  "set (select_credit_rows conn b) =
     {r \<in> set (DailySheet conn). DebitCredit r = ''Credit'' \<and> BuyerName r = b}"
  by (simp add: select_credit_rows_def)

lemma select_credit_rows_signed:
  "map SignedAmount (select_credit_rows conn b) = map Amount (select_credit_rows conn b)"
  by (simp add: select_credit_rows_set SignedAmount_def)

lemma select_credit_rows_distinct:
  "primary_key_ok conn \<Longrightarrow> distinct (map RowId (select_credit_rows conn b))"
  by (simp add: primary_key_ok_def select_credit_rows_def distinct_map_sort_key
      distinct_map_filter)

subsection \<open>The value written to each row\<close>

lemma last_written_None: "last_written df run i = None \<longleftrightarrow> i \<notin> RowId ` set df"
proof (induction df arbitrary: run)
  case Nil
  show ?case by simp
next
  case (Cons r df)
  show ?case
    by (cases "last_written df (run + SignedAmount r) i")
       (use Cons.IH [of "run + SignedAmount r"] in auto)
qed

lemma last_written_cong:
  "map RowId df = map RowId df' \<Longrightarrow> map SignedAmount df = map SignedAmount df'
     \<Longrightarrow> last_written df run i = last_written df' run i"
proof (induction df arbitrary: df' run)
  case Nil
  then show ?case by simp
next
  case (Cons r df)
  then obtain r' dg where d: "df' = r' # dg" by (cases df') auto
  with Cons.prems
  have "last_written df (run + SignedAmount r) i = last_written dg (run + SignedAmount r) i"
    by (intro Cons.IH) simp_all
  moreover from d Cons.prems have "RowId r = RowId r'" "SignedAmount r = SignedAmount r'"
    by simp_all
  ultimately show ?case using d by (simp split: option.splits)
qed

lemma write_debt_cong:
  "map RowId df = map RowId df' \<Longrightarrow> map SignedAmount df = map SignedAmount df'
     \<Longrightarrow> write_debt df run = write_debt df' run"
  by (rule ext) (simp add: write_debt_def last_written_cong [of df df'])

lemma last_written_nth:
  "distinct (map RowId df) \<Longrightarrow> k < length df \<Longrightarrow>
     last_written df run (RowId (df ! k))
       = Some (run + sum_list (map SignedAmount (take (Suc k) df)))"
proof (induction df arbitrary: run k)
  case Nil
  then show ?case by simp
next
  case (Cons r df)
  show ?case
  proof (cases k)
    case 0
    from Cons.prems have "RowId r \<notin> RowId ` set df" by simp
    then have "last_written df (run + SignedAmount r) (RowId r) = None"
      by (simp add: last_written_None)
    with 0 show ?thesis by simp
  next
    case (Suc j)
    with Cons.prems have "last_written df (run + SignedAmount r) (RowId (df ! j))
        = Some (run + SignedAmount r + sum_list (map SignedAmount (take (Suc j) df)))"
      by (intro Cons.IH) simp_all
    with Suc show ?thesis by (simp add: add.assoc)
  qed
qed

lemma sum_list_take_Suc_nth:
  "k < length xs \<Longrightarrow> sum_list (take (Suc k) xs) = (\<Sum>j\<le>k. xs ! j)" for xs :: "real list"
proof (induction k)
  case 0
  then show ?case by (cases xs) simp_all
next
  case (Suc k)
  then show ?case by (simp add: take_Suc_conv_app_nth [of "Suc k"])
qed

lemma write_debt_nth:
  assumes "primary_key_ok conn" and "k < length (select_credit_rows conn b)"
  shows "write_debt (select_credit_rows conn b) 0 (select_credit_rows conn b ! k) =
           (select_credit_rows conn b ! k)
             \<lparr>Debt := sum_list (take (Suc k) (map Amount (select_credit_rows conn b)))\<rparr>"
proof -
  let ?df = "select_credit_rows conn b"
  from assms(2) have "?df ! k \<in> set ?df" by simp
  then have c: "DebitCredit (?df ! k) = ''Credit''" by (simp add: select_credit_rows_set)
  have "last_written ?df 0 (RowId (?df ! k))
      = Some (0 + sum_list (map SignedAmount (take (Suc k) ?df)))"
    using assms by (intro last_written_nth select_credit_rows_distinct)
  also have "map SignedAmount (take (Suc k) ?df) = take (Suc k) (map Amount ?df)"
    by (simp add: take_map [symmetric] select_credit_rows_signed del: take_map)
  finally show ?thesis using c by (simp add: write_debt_def)
qed

lemma write_debt_other:
  assumes "primary_key_ok conn" and "x \<in> set (DailySheet conn)"
    and "DebitCredit x \<noteq> ''Credit'' \<or> BuyerName x \<noteq> b"
  shows "write_debt (select_credit_rows conn b) run x = x"
proof (cases "DebitCredit x = ''Credit''")
  case False
  then show ?thesis by (simp add: write_debt_def)
next
  case True
  with assms(3) have nb: "BuyerName x \<noteq> b" by simp
  have "RowId x \<notin> RowId ` set (select_credit_rows conn b)"
  proof
    assume "RowId x \<in> RowId ` set (select_credit_rows conn b)"
    then obtain y where y: "y \<in> set (DailySheet conn)" "BuyerName y = b" "RowId y = RowId x"
      by (auto simp: select_credit_rows_set)
    from assms(1) have "inj_on RowId (set (DailySheet conn))"
      by (simp add: primary_key_ok_def distinct_map)
    with y assms(2) have "y = x" by (auto dest: inj_onD)
    with y nb show False by simp
  qed
  then have "last_written (select_credit_rows conn b) run (RowId x) = None"
    by (simp add: last_written_None)
  then show ?thesis by (simp add: write_debt_def)
qed

subsection \<open>The claims about \<^verbatim>\<open>recalculate_debts\<close>\<close>

text \<open>
  C1. In a ledger whose \<^verbatim>\<open>Id\<close> column is a primary key, let the buyer's Credit rows in
  ascending \<^verbatim>\<open>Id\<close> have the amounts \<open>a\<^sub>0, \<dots>, a\<^sub>n\<^sub>-\<^sub>1\<close>. After \<^verbatim>\<open>recalculate_debts\<close> the
  buyer has the same Credit rows with the same amounts in the same order, and the
  \<^verbatim>\<open>Debt\<close> of the row at position \<open>k\<close> is \<open>a\<^sub>0 + \<dots> + a\<^sub>k\<close>. With no Credit row there is no
  such \<open>k\<close>.
\<close>

theorem recalculate_debts_prefix_sum:
  assumes "primary_key_ok conn" and "k < length (select_credit_rows conn b)"
  shows "map RowId (select_credit_rows (recalculate_debts conn b) b)
           = map RowId (select_credit_rows conn b)
       \<and> map Amount (select_credit_rows (recalculate_debts conn b) b)
           = map Amount (select_credit_rows conn b)
       \<and> Debt (select_credit_rows (recalculate_debts conn b) b ! k)
           = (\<Sum>j\<le>k. Amount (select_credit_rows conn b ! j))"
proof -
  let ?df = "select_credit_rows conn b"
  have "(\<Sum>j\<le>k. Amount (?df ! j)) = (\<Sum>j\<le>k. map Amount ?df ! j)"
    using assms(2) by (intro sum.cong) simp_all
  also have "\<dots> = sum_list (take (Suc k) (map Amount ?df))"
    using assms(2) by (simp add: sum_list_take_Suc_nth)
  finally show ?thesis
    using assms by (simp add: select_credit_rows_recalculate comp_def write_debt_nth)
qed

theorem recalculate_debts_prefix_sum_witness:
  "primary_key_ok ledger_example
   \<and> Suc 0 < length (select_credit_rows ledger_example ''B1'')
   \<and> map RowId (select_credit_rows (recalculate_debts ledger_example ''B1'') ''B1'') = [1, 3]
   \<and> map Amount (select_credit_rows (recalculate_debts ledger_example ''B1'') ''B1'')
       = [100, 200]
   \<and> Debt (select_credit_rows (recalculate_debts ledger_example ''B1'') ''B1'' ! Suc 0) = 300"
proof -
  have pk: "primary_key_ok ledger_example"
    by (simp add: primary_key_ok_def ledger_example_def)
  have sel: "map (\<lambda>r. (RowId r, Amount r)) (select_credit_rows ledger_example ''B1'')
      = [(1, 100), (3, 200)]"
    by (simp add: select_credit_rows_def ledger_example_def)
  have len: "Suc 0 < length (select_credit_rows ledger_example ''B1'')"
    using arg_cong [OF sel, of length] by simp
  have ids: "map RowId (select_credit_rows ledger_example ''B1'') = [1, 3]"
    using arg_cong [OF sel, of "map fst"] by (simp add: comp_def)
  have ams: "map Amount (select_credit_rows ledger_example ''B1'') = [100, 200]"
    using arg_cong [OF sel, of "map snd"] by (simp add: comp_def)
  have "(\<Sum>j\<le>Suc 0. Amount (select_credit_rows ledger_example ''B1'' ! j))
      = (\<Sum>j\<le>Suc 0. map Amount (select_credit_rows ledger_example ''B1'') ! j)"
    using len by (intro sum.cong) simp_all
  also have "\<dots> = 300" by (simp add: ams)
  finally show ?thesis
    using recalculate_debts_prefix_sum [OF pk len] pk len ids ams by simp
qed

text \<open>
  C4. A second \<^verbatim>\<open>recalculate_debts\<close> for the same buyer, right after the first, changes
  nothing: the ledger after the second call is the ledger after the first.
\<close>

theorem recalculate_debts_idempotent:
  "recalculate_debts (recalculate_debts conn b) b = recalculate_debts conn b"
proof -
  let ?df = "select_credit_rows conn b"
  have "write_debt (map (write_debt ?df 0) ?df) 0 = write_debt ?df 0"
    by (rule write_debt_cong) (simp_all add: comp_def)
  then show ?thesis
    by (simp add: recalculate_debts_rows [of "recalculate_debts conn b"]
        select_credit_rows_recalculate)
       (simp add: recalculate_debts_rows comp_def write_debt_idem)
qed

text \<open>
  C6. In a ledger whose \<^verbatim>\<open>Id\<close> column is a primary key, \<^verbatim>\<open>recalculate_debts\<close> keeps the other
  table and the \<^verbatim>\<open>Id\<close> counter, keeps the number and the order of the rows, changes at most
  the \<^verbatim>\<open>Debt\<close> of a row, and changes nothing in a row that is not a Credit row or that
  belongs to another buyer. When the buyer has no Credit row the whole state is unchanged.
\<close>

theorem recalculate_debts_frame:
  assumes "primary_key_ok conn"
  shows "DailySheet_seq (recalculate_debts conn b) = DailySheet_seq conn
    \<and> DailyFlowerPrice (recalculate_debts conn b) = DailyFlowerPrice conn
    \<and> length (DailySheet (recalculate_debts conn b)) = length (DailySheet conn)
    \<and> (\<forall>i<length (DailySheet conn).
          DailySheet (recalculate_debts conn b) ! i
            = (DailySheet conn ! i)\<lparr>Debt := Debt (DailySheet (recalculate_debts conn b) ! i)\<rparr>
          \<and> (DebitCredit (DailySheet conn ! i) \<noteq> ''Credit''
               \<or> BuyerName (DailySheet conn ! i) \<noteq> b
             \<longrightarrow> DailySheet (recalculate_debts conn b) ! i = DailySheet conn ! i))
    \<and> (select_credit_rows conn b = [] \<longrightarrow> recalculate_debts conn b = conn)"
proof -
  have "recalculate_debts conn b = conn" if "select_credit_rows conn b = []"
    using that by (simp add: recalculate_debts_def)
  moreover have "DailySheet (recalculate_debts conn b) ! i = DailySheet conn ! i"
    if "i < length (DailySheet conn)"
      "DebitCredit (DailySheet conn ! i) \<noteq> ''Credit'' \<or> BuyerName (DailySheet conn ! i) \<noteq> b"
    for i
    using that assms by (simp add: recalculate_debts_rows write_debt_other)
  moreover have "DailySheet (recalculate_debts conn b) ! i
            = (DailySheet conn ! i)\<lparr>Debt := Debt (DailySheet (recalculate_debts conn b) ! i)\<rparr>"
    if "i < length (DailySheet conn)" for i
    using that by (simp add: recalculate_debts_rows write_debt_only_Debt [symmetric])
  ultimately show ?thesis
    by (simp add: recalculate_debts_rows)
qed

lemma loop_simplified:
  "\<forall>r\<in>set df. DebitCredit r = ''Credit'' \<Longrightarrow>
     recalculate_loop df run conn = simplified_loop df run conn"
  by (induction df arbitrary: run conn) simp_all

text \<open>
  C10. Every fetched row has \<^verbatim>\<open>DebitCredit = 'Credit'\<close>, so the \<^verbatim>\<open>else\<close> branch of the signed
  amount is never taken, and \<^verbatim>\<open>recalculate_debts\<close> is the function that adds each fetched
  row's \<^verbatim>\<open>Amount\<close> to the running total, on every ledger and for every buyer.
\<close>

theorem recalculate_debts_simplified:
  "filter (\<lambda>r. DebitCredit r \<noteq> ''Credit'') (select_credit_rows conn b) = []
   \<and> recalculate_debts conn b = simplified_recalculate_debts conn b"
proof -
  have "\<forall>r\<in>set (select_credit_rows conn b). DebitCredit r = ''Credit''"
    by (simp add: select_credit_rows_set)
  then have "recalculate_loop (select_credit_rows conn b) 0 conn
      = simplified_loop (select_credit_rows conn b) 0 conn"
    by (rule loop_simplified)
  then show ?thesis
    by (simp add: recalculate_debts_def simplified_recalculate_debts_def Let_def
        filter_empty_conv select_credit_rows_set)
qed

theorem recalculate_debts_frame_witness:
  "primary_key_ok ledger_example
   \<and> (1::nat) < length (DailySheet ledger_example)
   \<and> DebitCredit (DailySheet ledger_example ! 1) \<noteq> ''Credit''
   \<and> DailySheet (recalculate_debts ledger_example ''B1'') ! 1 = DailySheet ledger_example ! 1
   \<and> (3::nat) < length (DailySheet ledger_example)
   \<and> BuyerName (DailySheet ledger_example ! 3) \<noteq> ''B1''
   \<and> DailySheet (recalculate_debts ledger_example ''B1'') ! 3 = DailySheet ledger_example ! 3
   \<and> DailySheet (recalculate_debts ledger_example ''B1'') ! 0
       = (DailySheet ledger_example ! 0)\<lparr>Debt := 100\<rparr>
   \<and> select_credit_rows ledger_example ''B3'' = []
   \<and> recalculate_debts ledger_example ''B3'' = ledger_example"
proof -
  have pk: "primary_key_ok ledger_example"
    by (simp add: primary_key_ok_def ledger_example_def)
  have e: "select_credit_rows ledger_example ''B3'' = []"
    by (simp add: select_credit_rows_def ledger_example_def)
  have l: "(1::nat) < length (DailySheet ledger_example)"
    "(3::nat) < length (DailySheet ledger_example)"
    by (simp_all add: ledger_example_def)
  have d: "DebitCredit (DailySheet ledger_example ! 1) \<noteq> ''Credit''"
    "BuyerName (DailySheet ledger_example ! 3) \<noteq> ''B1''"
    by (simp_all add: ledger_example_def)
  have z: "DailySheet (recalculate_debts ledger_example ''B1'') ! 0
       = (DailySheet ledger_example ! 0)\<lparr>Debt := 100\<rparr>"
    by (simp add: recalculate_debts_def select_credit_rows_def update_debt_def
        ledger_example_def)
  from recalculate_debts_frame [OF pk, of "''B1''"] recalculate_debts_frame [OF pk, of "''B3''"]
  show ?thesis using pk e l d z by simp
qed

section \<open>Properties of the add form\<close>

subsection \<open>Fresh row identifiers\<close>

lemma fold_max_ge: "s \<le> fold max xs s" for s :: int
  by (induction xs arbitrary: s) (auto intro: order_trans [OF max.cobounded2])

lemma fold_max_mem: "x \<in> set xs \<Longrightarrow> x \<le> fold max xs s" for s :: int
proof (induction xs arbitrary: s)
  case Nil
  then show ?case by simp
next
  case (Cons y ys)
  show ?case
  proof (cases "x = y")
    case True
    have "y \<le> max y s" by simp
    also have "\<dots> \<le> fold max ys (max y s)" by (rule fold_max_ge)
    finally show ?thesis using True by simp
  next
    case False
    with Cons show ?thesis by simp
  qed
qed

lemma next_id_fresh: "r \<in> set (DailySheet conn) \<Longrightarrow> RowId r < next_id conn"
  using fold_max_mem [of "RowId r" "map RowId (DailySheet conn)" "DailySheet_seq conn"]
  by (simp add: next_id_def)

lemma next_id_seq: "DailySheet_seq conn < next_id conn"
  using fold_max_ge [of "DailySheet_seq conn" "map RowId (DailySheet conn)"]
  by (simp add: next_id_def)

lemma filter_id_recalculate:
  "filter (\<lambda>r. RowId r = i) (DailySheet (recalculate_debts c b))
     = map (write_debt (select_credit_rows c b) 0) (filter (\<lambda>r. RowId r = i) (DailySheet c))"
  by (simp add: recalculate_debts_rows filter_map comp_def)

lemma filter_id_insert_row:
  "filter (\<lambda>r. RowId r = next_id conn) (DailySheet (insert_row conn r))
     = [r\<lparr>RowId := next_id conn\<rparr>]"
proof -
  have "RowId x \<noteq> next_id conn" if "x \<in> set (DailySheet conn)" for x
    using next_id_fresh [OF that] by simp
  then have "filter (\<lambda>r. RowId r = next_id conn) (DailySheet conn) = []"
    by (simp add: filter_empty_conv)
  then show ?thesis by (simp add: insert_row_def)
qed

subsection \<open>A Debit entry\<close>

lemma debit_row_kept:
  assumes "filter (\<lambda>r. RowId r = i) (DailySheet c) = [x]" and "DebitCredit x \<noteq> ''Credit''"
  shows "filter (\<lambda>r. RowId r = i) (DailySheet (foldl recalculate_debts c bs)) = [x]"
  using assms(1)
proof (induction bs arbitrary: c)
  case Nil
  then show ?case by simp
next
  case (Cons b bs)
  have "filter (\<lambda>r. RowId r = i) (DailySheet (recalculate_debts c b)) = [x]"
    using Cons.prems assms(2) by (simp add: filter_id_recalculate write_debt_def)
  then show ?case by (simp add: Cons.IH)
qed

text \<open>
  C9. An accepted submission of the add form with direction Debit (customer and flower
  chosen) creates one row with a fresh \<^verbatim>\<open>Id\<close>, whose \<^verbatim>\<open>Debt\<close> is the negated amount
  \<open>- (qty * rate)\<close> whatever the buyer's rows hold. After the recalculation that the form
  runs, and after any further recalculations for any buyers \<open>bs\<close>, the ledger still holds
  exactly that row under that \<^verbatim>\<open>Id\<close>.
\<close>

theorem debit_row_debt_persists:
  assumes "debit_credit f = ''Debit''" and "name f \<noteq> []" and "flower_name f \<noteq> []"
  shows "filter (\<lambda>r. RowId r = next_id conn)
           (DailySheet (foldl recalculate_debts (fst (add_transaction conn f True)) bs))
         = [\<lparr>RowId = next_id conn, Date = selected_date f, Name = name f,
             FlowerName = flower_name f, Qty = qty f, Rate = rate f,
             Amount = qty f * rate f, DebitCredit = ''Debit'', Debt = - (qty f * rate f),
             BuyerName = buyer_name f\<rparr>]"
proof -
  let ?x = "\<lparr>RowId = next_id conn, Date = selected_date f, Name = name f,
             FlowerName = flower_name f, Qty = qty f, Rate = rate f,
             Amount = qty f * rate f, DebitCredit = ''Debit'', Debt = - (qty f * rate f),
             BuyerName = buyer_name f\<rparr>"
  have "fst (add_transaction conn f True)
      = foldl recalculate_debts (insert_row conn (?x\<lparr>RowId := 0\<rparr>)) [buyer_name f]"
    using assms by (simp add: add_transaction_def Let_def)
  moreover have "filter (\<lambda>r. RowId r = next_id conn)
      (DailySheet (insert_row conn (?x\<lparr>RowId := 0\<rparr>))) = [?x]"
    by (simp add: filter_id_insert_row)
  then have "filter (\<lambda>r. RowId r = next_id conn)
      (DailySheet (foldl recalculate_debts (insert_row conn (?x\<lparr>RowId := 0\<rparr>))
         ([buyer_name f] @ bs))) = [?x]"
    by (rule debit_row_kept) simp
  ultimately show ?thesis by simp
qed

theorem debit_row_debt_persists_witness:
  "debit_credit debit_form = ''Debit'' \<and> name debit_form \<noteq> []
   \<and> flower_name debit_form \<noteq> []
   \<and> filter (\<lambda>r. RowId r = 5)
       (DailySheet (foldl recalculate_debts
          (fst (add_transaction ledger_example debit_form True)) [''B1'', ''B2'']))
     = [\<lparr>RowId = 5, Date = ''2024-03-04'', Name = ''Mani'', FlowerName = ''Rose'', Qty = 3,
         Rate = 10, Amount = 30, DebitCredit = ''Debit'', Debt = - 30, BuyerName = ''B1''\<rparr>]"
proof -
  have h: "debit_credit debit_form = ''Debit''" "name debit_form \<noteq> []"
    "flower_name debit_form \<noteq> []"
    by (simp_all add: debit_form_def)
  have n: "next_id ledger_example = 5"
    by (simp add: next_id_def ledger_example_def)
  from debit_row_debt_persists [OF h, of ledger_example "[''B1'', ''B2'']"] h n
  show ?thesis by (simp add: debit_form_def)
qed

subsection \<open>A Credit entry without a buyer\<close>

text \<open>
  C7, as the claim states it, fails: a Credit submission with an empty buyer and an empty
  customer name is dropped without any message.
\<close>

theorem credit_without_buyer_silent_counterexample:
  "debit_credit (credit_form_no_buyer\<lparr>name := []\<rparr>) = ''Credit''
   \<and> buyer_name (credit_form_no_buyer\<lparr>name := []\<rparr>) = []
   \<and> add_transaction ledger_example (credit_form_no_buyer\<lparr>name := []\<rparr>) True
       = (ledger_example, None)"
  by (simp add: credit_form_no_buyer_def add_transaction_def)

text \<open>
  C7, amended. A submission with direction Credit and an empty buyer never changes the
  ledger. The message that a buyer is required is shown when the button was pressed and
  the customer name and the flower name are both chosen; otherwise nothing is shown.
\<close>

theorem credit_without_buyer_rejected:
  assumes "debit_credit f = ''Credit''" and "buyer_name f = []"
  shows "add_transaction conn f submit_add =
           (conn,
            if submit_add \<and> name f \<noteq> [] \<and> flower_name f \<noteq> []
            then Some (st_error
                   ''Buyer Name is required when Debit/Credit is set to 'Credit'.'')
            else None)"
  using assms by (simp add: add_transaction_def Let_def)

theorem credit_without_buyer_rejected_witness:
  "debit_credit credit_form_no_buyer = ''Credit'' \<and> buyer_name credit_form_no_buyer = []
   \<and> add_transaction ledger_example credit_form_no_buyer True =
       (ledger_example,
        Some (st_error ''Buyer Name is required when Debit/Credit is set to 'Credit'.''))"
proof -
  have h: "debit_credit credit_form_no_buyer = ''Credit''"
    "buyer_name credit_form_no_buyer = []"
    by (simp_all add: credit_form_no_buyer_def)
  from credit_without_buyer_rejected [OF h, of ledger_example True] h show ?thesis
    by (simp add: credit_form_no_buyer_def)
qed

section \<open>Properties of the price lookups\<close>

lemma find_None_filter: "find P xs = None \<longleftrightarrow> filter P xs = []"
  by (induction xs) auto

lemma sort_key_Nil_iff: "sort_key f xs = [] \<longleftrightarrow> xs = []"
proof -
  have "length (sort_key f xs) = length xs" by simp
  then show ?thesis by (metis length_0_conv)
qed

text \<open>
  C8, as the claim states it, fails for the add form of the Streamlit front ends: with no
  price entry for the flower and the date, the rate it is filled with is 0, the same rate
  that an entry with price 0 gives.
\<close>

theorem default_rate_zero_counterexample:
  "DailyFlowerPrice ledger_example = []
   \<and> default_rate ledger_example ''Rose'' ''2024-03-04'' = 0
   \<and> default_rate
        (ledger_example\<lparr>DailyFlowerPrice :=
           [\<lparr>PriceFlowerName = ''Rose'', PriceDate = ''2024-03-04'', Price = 0\<rparr>]\<rparr>)
        ''Rose'' ''2024-03-04'' = 0"
  by (simp add: default_rate_def ledger_example_def)

text \<open>
  C8, amended. \<^verbatim>\<open>fetch_today_price\<close> of the desktop front end returns \<open>None\<close> exactly when
  the flower has no price entry dated on or before the query date, and otherwise the
  price of such an entry, so an explicit price of zero comes back as \<open>Some 0\<close>. The add
  form of the Streamlit front ends is filled with the rate 0 when there is no price entry
  for the flower and the date.
\<close>

theorem price_lookup_absent:
  "(fetch_today_price flower_prices fid ymd = None
      \<longleftrightarrow> filter (\<lambda>p. flower_id p = fid \<and> price_date p \<le> ymd) flower_prices = [])
   \<and> (\<forall>v. fetch_today_price flower_prices fid ymd = Some v
        \<longrightarrow> v \<in> price ` {p \<in> set flower_prices. flower_id p = fid \<and> price_date p \<le> ymd})
   \<and> (filter (\<lambda>p. PriceFlowerName p = flower \<and> PriceDate p = date_str)
         (DailyFlowerPrice conn) = []
        \<longrightarrow> default_rate conn flower date_str = 0)"
proof (intro conjI allI impI)
  let ?ms = "filter (\<lambda>p. flower_id p = fid \<and> price_date p \<le> ymd) flower_prices"
  have "rev (sort_key price_date ?ms) = [] \<longleftrightarrow> ?ms = []"
    by (simp add: sort_key_Nil_iff)
  then show "fetch_today_price flower_prices fid ymd = None \<longleftrightarrow> ?ms = []"
    by (cases "rev (sort_key price_date ?ms)") (simp_all add: fetch_today_price_def)
next
  fix v
  let ?ms = "filter (\<lambda>p. flower_id p = fid \<and> price_date p \<le> ymd) flower_prices"
  assume "fetch_today_price flower_prices fid ymd = Some v"
  then obtain p ps where p: "rev (sort_key price_date ?ms) = p # ps" "v = price p"
    by (auto simp: fetch_today_price_def split: list.splits)
  have "p \<in> set (rev (sort_key price_date ?ms))" unfolding p(1) by simp
  then have "p \<in> set ?ms" by simp
  then have "p \<in> {p \<in> set flower_prices. flower_id p = fid \<and> price_date p \<le> ymd}" by simp
  then show "v \<in> price ` {p \<in> set flower_prices. flower_id p = fid \<and> price_date p \<le> ymd}"
    unfolding p(2) by (rule imageI)
next
  assume "filter (\<lambda>p. PriceFlowerName p = flower \<and> PriceDate p = date_str)
      (DailyFlowerPrice conn) = []"
  then show "default_rate conn flower date_str = 0"
    by (simp add: default_rate_def find_None_filter [symmetric])
qed

theorem price_lookup_absent_witness:
  "filter (\<lambda>p. flower_id p = 2 \<and> price_date p \<le> ''2024-03-04'') prices_example = []
   \<and> fetch_today_price prices_example 2 ''2024-03-04'' = None
   \<and> fetch_today_price prices_example 1 ''2024-03-02'' = Some 0
   \<and> 0 \<in> price ` {p \<in> set prices_example. flower_id p = 1 \<and> price_date p \<le> ''2024-03-02''}
   \<and> filter (\<lambda>p. PriceFlowerName p = ''Rose'' \<and> PriceDate p = ''2024-03-04'')
        (DailyFlowerPrice ledger_example) = []
   \<and> default_rate ledger_example ''Rose'' ''2024-03-04'' = 0"
proof -
  have a: "filter (\<lambda>p. flower_id p = 2 \<and> price_date p \<le> ''2024-03-04'') prices_example = []"
    by (simp add: prices_example_def less_eq_char_def)
  have b: "fetch_today_price prices_example 1 ''2024-03-02'' = Some 0"
    by (simp add: fetch_today_price_def prices_example_def less_eq_char_def)
  have c: "filter (\<lambda>p. PriceFlowerName p = ''Rose'' \<and> PriceDate p = ''2024-03-04'')
        (DailyFlowerPrice ledger_example) = []"
    by (simp add: ledger_example_def)
  from price_lookup_absent
      [of prices_example 2 "''2024-03-04''" "''Rose''" "''2024-03-04''" ledger_example]
    price_lookup_absent
      [of prices_example 1 "''2024-03-02''" "''Rose''" "''2024-03-04''" ledger_example]
    a b c
  show ?thesis by simp
qed

section \<open>Properties of the edit form and of insertion order\<close>

lemma primary_key_ok_recalculate [simp]:
  "primary_key_ok (recalculate_debts c b) = primary_key_ok c"
  by (simp add: primary_key_ok_def recalculate_debts_rows comp_def)

lemma primary_key_ok_update_row [simp]:
  "primary_key_ok (update_row c i new) = primary_key_ok c"
proof -
  have "RowId \<circ> (\<lambda>r. if RowId r = i then new\<lparr>RowId := RowId r\<rparr> else r) = RowId"
    by (rule ext) simp
  then show ?thesis by (simp add: primary_key_ok_def update_row_def)
qed

lemma primary_key_ok_delete_row:
  "primary_key_ok c \<Longrightarrow> primary_key_ok (delete_row c i)"
  by (simp add: primary_key_ok_def delete_row_def distinct_map_filter)

lemma prefix_sum_invariant_recalculate:
  assumes "primary_key_ok c"
  shows "prefix_sum_invariant (recalculate_debts c b) b"
proof -
  let ?df = "select_credit_rows c b"
  have "map Debt (map (write_debt ?df 0) ?df) = prefix_sums (map Amount ?df)"
    unfolding prefix_sums_def
    by (rule nth_equalityI) (simp_all add: write_debt_nth [OF assms])
  then show ?thesis
    by (simp add: prefix_sum_invariant_def select_credit_rows_recalculate comp_def)
qed

lemma select_credit_rows_recalculate_other:
  assumes "primary_key_ok c" and "b' \<noteq> b"
  shows "select_credit_rows (recalculate_debts c b) b' = select_credit_rows c b'"
proof -
  have "write_debt (select_credit_rows c b) 0 x = x" if "x \<in> set (select_credit_rows c b')" for x
    using that assms by (intro write_debt_other) (auto simp: select_credit_rows_set)
  then show ?thesis
    by (simp add: select_credit_rows_recalculate map_idI)
qed

lemma prefix_sum_invariant_recalculate_other:
  assumes "primary_key_ok c" and "b' \<noteq> b"
  shows "prefix_sum_invariant (recalculate_debts c b) b' = prefix_sum_invariant c b'"
  by (simp add: prefix_sum_invariant_def select_credit_rows_recalculate_other [OF assms])

lemma select_credit_rows_ids_recalculate:
  "RowId ` set (select_credit_rows (recalculate_debts c b) b') = RowId ` set (select_credit_rows c b')"
  by (simp add: select_credit_rows_recalculate image_image)

text \<open>
  C2. In a ledger whose \<^verbatim>\<open>Id\<close> column is a primary key, pressing Update in the edit form
  for a Credit row of buyer \<open>A\<close>, with the buyer changed to \<open>B \<noteq> A\<close> and the direction
  still Credit, rewrites the row and then runs \<^verbatim>\<open>recalculate_debts\<close> for \<open>A\<close> and for \<open>B\<close>.
  Afterwards the prefix-sum invariant holds for \<open>A\<close> and for \<open>B\<close>, the row is no longer among
  the Credit rows of \<open>A\<close> and it is among those of \<open>B\<close>. The invariant need not hold before.
\<close>

theorem buyer_reassignment_recalculates_both:
  assumes pk: "primary_key_ok conn"
    and cur: "find (\<lambda>r. RowId r = selected_id) (DailySheet conn) = Some current_data"
    and old: "DebitCredit current_data = ''Credit''" "BuyerName current_data = A"
    and new: "debit_credit f = ''Credit''" "buyer_name f = B" "A \<noteq> B"
    and run: "edit_transaction conn customers flowers buyers selected_id f (Some Update)
                = Inr (conn', Some m)"
  shows "(\<exists>d. conn' =
            recalculate_debts
              (recalculate_debts
                 (update_row conn selected_id
                    \<lparr>RowId = selected_id, Date = selected_date f, Name = name f,
                     FlowerName = flower_name f, Qty = qty f, Rate = rate f,
                     Amount = qty f * rate f, DebitCredit = ''Credit'', Debt = d,
                     BuyerName = B\<rparr>) A) B)
       \<and> prefix_sum_invariant conn' A \<and> prefix_sum_invariant conn' B
       \<and> selected_id \<notin> RowId ` set (select_credit_rows conn' A)
       \<and> selected_id \<in> RowId ` set (select_credit_rows conn' B)"
proof -
  define d where "d = current_debt conn B + qty f * rate f"
  define new_row where "new_row = \<lparr>RowId = selected_id, Date = selected_date f, Name = name f,
                     FlowerName = flower_name f, Qty = qty f, Rate = rate f,
                     Amount = qty f * rate f, DebitCredit = ''Credit'', Debt = d,
                     BuyerName = B\<rparr>"
  define c1 where "c1 = update_row conn selected_id new_row"
  have eq: "conn' = recalculate_debts (recalculate_debts c1 A) B"
    using run cur old new
    by (simp add: edit_transaction_def Let_def c1_def new_row_def d_def split: if_splits)
  have pk1: "primary_key_ok c1" using pk by (simp add: c1_def)
  have invB: "prefix_sum_invariant conn' B"
    unfolding eq by (rule prefix_sum_invariant_recalculate) (simp add: pk1)
  have "prefix_sum_invariant (recalculate_debts c1 A) A"
    by (rule prefix_sum_invariant_recalculate [OF pk1])
  then have invA: "prefix_sum_invariant conn' A"
    unfolding eq using pk1 new(3) by (simp add: prefix_sum_invariant_recalculate_other)
  from cur have mem: "current_data \<in> set (DailySheet conn)" "RowId current_data = selected_id"
    by (auto simp: find_Some_iff in_set_conv_nth)
  have rows1: "set (DailySheet c1) =
      (\<lambda>r. if RowId r = selected_id then new_row\<lparr>RowId := RowId r\<rparr> else r) ` set (DailySheet conn)"
    by (simp add: c1_def update_row_def)
  have inB: "selected_id \<in> RowId ` set (select_credit_rows c1 B)"
  proof -
    have "new_row \<in> set (DailySheet c1)"
      unfolding rows1 using mem by (force simp: new_row_def)
    then have "new_row \<in> set (select_credit_rows c1 B)"
      by (simp add: select_credit_rows_set new_row_def)
    then have "RowId new_row \<in> RowId ` set (select_credit_rows c1 B)" by (rule imageI)
    then show ?thesis by (simp add: new_row_def)
  qed
  have notA: "selected_id \<notin> RowId ` set (select_credit_rows c1 A)"
  proof
    assume "selected_id \<in> RowId ` set (select_credit_rows c1 A)"
    then obtain y where y: "y \<in> set (DailySheet c1)" "BuyerName y = A" "RowId y = selected_id"
      by (auto simp: select_credit_rows_set)
    from y(1) obtain r where "r \<in> set (DailySheet conn)"
      "y = (if RowId r = selected_id then new_row\<lparr>RowId := RowId r\<rparr> else r)"
      unfolding rows1 by auto
    with y(2,3) new(3) show False by (auto simp: new_row_def split: if_splits)
  qed
  from eq invA invB inB notA show ?thesis
    unfolding c1_def new_row_def
    by (auto simp: select_credit_rows_ids_recalculate)
qed


lemma insort_key_snoc:
  "f y < f x \<Longrightarrow> insort_key f y (zs @ [x]) = insort_key f y zs @ [x]"
  by (induction zs) (simp_all add: less_imp_le)

lemma foldr_insort_key_snoc:
  "\<forall>y\<in>set xs. f y < f x \<Longrightarrow> foldr (insort_key f) xs [x] = sort_key f xs @ [x]"
  by (induction xs) (simp_all add: sort_key_def insort_key_snoc)

lemma sort_key_snoc:
  "\<forall>y\<in>set xs. f y < f x \<Longrightarrow> sort_key f (xs @ [x]) = sort_key f xs @ [x]"
  by (simp add: sort_key_def foldr_insort_key_snoc [unfolded sort_key_def])

lemma select_credit_rows_insert_row:
  "select_credit_rows (insert_row conn r) b =
     select_credit_rows conn b @
       (if DebitCredit r = ''Credit'' \<and> BuyerName r = b then [r\<lparr>RowId := next_id conn\<rparr>] else [])"
proof -
  have "\<forall>y\<in>set (filter (\<lambda>r. DebitCredit r = ''Credit'' \<and> BuyerName r = b) (DailySheet conn)).
          RowId y < RowId (r\<lparr>RowId := next_id conn\<rparr>)"
    by (simp add: next_id_fresh)
  then show ?thesis
    by (simp add: select_credit_rows_def insert_row_def sort_key_snoc)
qed

lemma primary_key_ok_insert_row:
  assumes "primary_key_ok conn"
  shows "primary_key_ok (insert_row conn r)"
proof -
  have "next_id conn \<notin> RowId ` set (DailySheet conn)"
    using next_id_fresh [of _ conn] by force
  with assms show ?thesis by (simp add: primary_key_ok_def insert_row_def)
qed

lemma prefix_sums_snoc: "prefix_sums (xs @ [a]) = prefix_sums xs @ [sum_list xs + a]"
  by (simp add: prefix_sums_def)

lemma recalculate_keeps_invariant_rows:
  assumes "primary_key_ok c" and "prefix_sum_invariant c b"
  shows "select_credit_rows (recalculate_debts c b) b = select_credit_rows c b"
proof -
  let ?df = "select_credit_rows c b"
  have "map (write_debt ?df 0) ?df = ?df"
  proof (rule nth_equalityI)
    show "length (map (write_debt ?df 0) ?df) = length ?df" by simp
  next
    fix k assume "k < length (map (write_debt ?df 0) ?df)"
    then have k: "k < length ?df" by simp
    from assms(2) have "map Debt ?df ! k = prefix_sums (map Amount ?df) ! k"
      by (simp add: prefix_sum_invariant_def)
    with k have "Debt (?df ! k) = sum_list (take (Suc k) (map Amount ?df))"
      by (simp add: prefix_sums_def)
    with k show "map (write_debt ?df 0) ?df ! k = ?df ! k"
      by (simp add: write_debt_nth [OF assms(1)])
  qed
  then show ?thesis by (simp add: select_credit_rows_recalculate)
qed

text \<open>
  C5. In a ledger whose \<^verbatim>\<open>Id\<close> column is a primary key, an accepted Credit submission for
  buyer \<open>b\<close> with any date, so also a date before those of the buyer's rows, puts the new
  row last in the buyer's sequence, under the fresh \<^verbatim>\<open>Id\<close>. After the recalculation that
  follows, the debts of the rows that were there are the running sums of their own
  amounts, and the new row carries the total. When the invariant held for \<open>b\<close> before, the
  existing rows are unchanged.
\<close>

theorem insert_appends_in_id_order:
  assumes pk: "primary_key_ok conn"
    and acc: "name f \<noteq> []" "flower_name f \<noteq> []"
    and cr: "debit_credit f = ''Credit''" "buyer_name f = b" "b \<noteq> []"
  shows "map RowId (select_credit_rows (fst (add_transaction conn f True)) b)
           = map RowId (select_credit_rows conn b) @ [next_id conn]
       \<and> map Date (select_credit_rows (fst (add_transaction conn f True)) b)
           = map Date (select_credit_rows conn b) @ [selected_date f]
       \<and> map Debt (select_credit_rows (fst (add_transaction conn f True)) b)
           = prefix_sums (map Amount (select_credit_rows conn b))
               @ [sum_list (map Amount (select_credit_rows conn b)) + qty f * rate f]
       \<and> (prefix_sum_invariant conn b \<longrightarrow>
            butlast (select_credit_rows (fst (add_transaction conn f True)) b)
              = select_credit_rows conn b)"
proof -
  define new_row where "new_row = \<lparr>RowId = 0, Date = selected_date f, Name = name f,
      FlowerName = flower_name f, Qty = qty f, Rate = rate f, Amount = qty f * rate f,
      DebitCredit = debit_credit f, Debt = current_debt conn (buyer_name f) + qty f * rate f,
      BuyerName = buyer_name f\<rparr>"
  define c1 where "c1 = insert_row conn new_row"
  let ?df = "select_credit_rows conn b"
  let ?r = "new_row\<lparr>RowId := next_id conn\<rparr>"
  have eq: "fst (add_transaction conn f True) = recalculate_debts c1 b"
    using acc cr by (simp add: add_transaction_def Let_def c1_def new_row_def)
  have pk1: "primary_key_ok c1"
    unfolding c1_def by (rule primary_key_ok_insert_row [OF pk])
  have df1: "select_credit_rows c1 b = ?df @ [?r]"
    using cr by (simp add: c1_def select_credit_rows_insert_row new_row_def)
  have sel: "select_credit_rows (recalculate_debts c1 b) b
      = map (write_debt (?df @ [?r]) 0) (?df @ [?r])"
    by (simp add: select_credit_rows_recalculate df1)
  have ids: "map RowId (select_credit_rows (recalculate_debts c1 b) b)
      = map RowId ?df @ [next_id conn]"
    by (simp add: sel comp_def)
  have dates: "map Date (select_credit_rows (recalculate_debts c1 b) b)
      = map Date ?df @ [selected_date f]"
    by (simp add: sel comp_def new_row_def)
  have "prefix_sum_invariant (recalculate_debts c1 b) b"
    by (rule prefix_sum_invariant_recalculate [OF pk1])
  then have "map Debt (select_credit_rows (recalculate_debts c1 b) b)
      = prefix_sums (map Amount (select_credit_rows c1 b))"
    by (simp add: prefix_sum_invariant_def select_credit_rows_recalculate comp_def)
  then have debts: "map Debt (select_credit_rows (recalculate_debts c1 b) b)
      = prefix_sums (map Amount ?df) @ [sum_list (map Amount ?df) + qty f * rate f]"
    by (simp add: df1 prefix_sums_snoc new_row_def)
  have keep: "butlast (select_credit_rows (recalculate_debts c1 b) b) = ?df"
    if inv: "prefix_sum_invariant conn b"
  proof -
    have "map (write_debt (?df @ [?r]) 0) ?df = ?df"
    proof (rule nth_equalityI)
      show "length (map (write_debt (?df @ [?r]) 0) ?df) = length ?df" by simp
    next
      fix k assume "k < length (map (write_debt (?df @ [?r]) 0) ?df)"
      then have k: "k < length ?df" by simp
      then have k1: "k < length (select_credit_rows c1 b)" by (simp add: df1)
      from inv have "map Debt ?df ! k = prefix_sums (map Amount ?df) ! k"
        by (simp add: prefix_sum_invariant_def)
      with k have d: "Debt (?df ! k) = sum_list (take (Suc k) (map Amount ?df))"
        by (simp add: prefix_sums_def)
      from write_debt_nth [OF pk1 k1] k
      have "write_debt (?df @ [?r]) 0 (?df ! k)
          = (?df ! k)\<lparr>Debt := sum_list (take (Suc k) (map Amount ?df))\<rparr>"
        by (simp add: df1 nth_append)
      with d k show "map (write_debt (?df @ [?r]) 0) ?df ! k = ?df ! k" by simp
    qed
    then show ?thesis by (simp add: sel butlast_append)
  qed
  from ids dates debts keep show ?thesis unfolding eq by blast
qed


theorem insert_appends_in_id_order_witness:
  "primary_key_ok ledger_example
   \<and> name earlier_credit_form \<noteq> [] \<and> flower_name earlier_credit_form \<noteq> []
   \<and> debit_credit earlier_credit_form = ''Credit''
   \<and> buyer_name earlier_credit_form = ''B2''
   \<and> prefix_sum_invariant ledger_example ''B2''
   \<and> map Date (select_credit_rows ledger_example ''B2'') = [''2024-03-03'']
   \<and> selected_date earlier_credit_form < ''2024-03-03''
   \<and> map RowId (select_credit_rows (fst (add_transaction ledger_example earlier_credit_form True)) ''B2'')
       = [4, 5]
   \<and> map Date (select_credit_rows (fst (add_transaction ledger_example earlier_credit_form True)) ''B2'')
       = [''2024-03-03'', ''2024-01-15'']
   \<and> map Debt (select_credit_rows (fst (add_transaction ledger_example earlier_credit_form True)) ''B2'')
       = [70, 100]
   \<and> butlast (select_credit_rows (fst (add_transaction ledger_example earlier_credit_form True)) ''B2'')
       = select_credit_rows ledger_example ''B2''"
proof -
  have pk: "primary_key_ok ledger_example"
    by (simp add: primary_key_ok_def ledger_example_def)
  have h: "name earlier_credit_form \<noteq> []" "flower_name earlier_credit_form \<noteq> []"
    "debit_credit earlier_credit_form = ''Credit''" "buyer_name earlier_credit_form = ''B2''"
    "''B2'' \<noteq> []"
    by (simp_all add: earlier_credit_form_def)
  have sel: "select_credit_rows ledger_example ''B2'' = [DailySheet ledger_example ! 3]"
    by (simp add: select_credit_rows_def ledger_example_def)
  have inv: "prefix_sum_invariant ledger_example ''B2''"
    by (simp add: prefix_sum_invariant_def prefix_sums_def sel) (simp add: ledger_example_def)
  have d: "map Date (select_credit_rows ledger_example ''B2'') = [''2024-03-03'']"
    by (simp add: sel) (simp add: ledger_example_def)
  have a: "map Amount (select_credit_rows ledger_example ''B2'') = [70]"
    by (simp add: sel) (simp add: ledger_example_def)
  have i: "map RowId (select_credit_rows ledger_example ''B2'') = [4]"
    by (simp add: sel) (simp add: ledger_example_def)
  have n: "next_id ledger_example = 5"
    by (simp add: next_id_def ledger_example_def)
  have lt: "selected_date earlier_credit_form < ''2024-03-03''"
    by (simp add: earlier_credit_form_def less_char_def)
  have q: "qty earlier_credit_form * rate earlier_credit_form = 30"
    "selected_date earlier_credit_form = ''2024-01-15''"
    by (simp_all add: earlier_credit_form_def)
  from insert_appends_in_id_order [OF pk h] inv
  show ?thesis using pk h inv d lt
    by (simp add: a i n q prefix_sums_def)
qed

theorem buyer_reassignment_recalculates_both_witness:
  "primary_key_ok ledger_example
   \<and> find (\<lambda>r. RowId r = 3) (DailySheet ledger_example) = Some (DailySheet ledger_example ! 2)
   \<and> DebitCredit (DailySheet ledger_example ! 2) = ''Credit''
   \<and> BuyerName (DailySheet ledger_example ! 2) = ''B1''
   \<and> debit_credit move_form = ''Credit'' \<and> buyer_name move_form = ''B2''
   \<and> edit_transaction ledger_example [''Mani'', ''Ravi''] [''Rose'', ''Lily''] [''B1'', ''B2'']
        3 move_form (Some Update)
       = Inr (ledger_moved, Some (st_success ''Transaction updated successfully!''))
   \<and> prefix_sum_invariant ledger_moved ''B1'' \<and> prefix_sum_invariant ledger_moved ''B2''
   \<and> 3 \<notin> RowId ` set (select_credit_rows ledger_moved ''B1'')
   \<and> 3 \<in> RowId ` set (select_credit_rows ledger_moved ''B2'')"
proof -
  have pk: "primary_key_ok ledger_example"
    by (simp add: primary_key_ok_def ledger_example_def)
  have cur: "find (\<lambda>r. RowId r = 3) (DailySheet ledger_example) = Some (DailySheet ledger_example ! 2)"
    by (simp add: ledger_example_def)
  have old: "DebitCredit (DailySheet ledger_example ! 2) = ''Credit''"
    "BuyerName (DailySheet ledger_example ! 2) = ''B1''"
    by (simp_all add: ledger_example_def)
  have new: "debit_credit move_form = ''Credit''" "buyer_name move_form = ''B2''"
    "''B1'' \<noteq> ''B2''"
    by (simp_all add: move_form_def)
  have run: "edit_transaction ledger_example [''Mani'', ''Ravi''] [''Rose'', ''Lily''] [''B1'', ''B2'']
        3 move_form (Some Update)
       = Inr (ledger_moved, Some (st_success ''Transaction updated successfully!''))"
    by (simp add: edit_transaction_def ledger_example_def move_form_def ledger_moved_def
        update_row_def recalculate_debts_def select_credit_rows_def update_debt_def
        current_debt_def SignedAmount_def Let_def)
  from buyer_reassignment_recalculates_both [OF pk cur old new run] pk cur old new run
  show ?thesis by simp
qed

section \<open>Histories of insertions and the deletion of a row\<close>

lemma add_transaction_fst:
  "fst (add_transaction c f True) =
     (if accepted f then recalculate_debts (insert_row c (inserted_row c f)) (buyer_name f)
      else c)"
  by (simp add: add_transaction_def accepted_def inserted_row_def Let_def)

lemma primary_key_ok_add_transaction:
  "primary_key_ok c \<Longrightarrow> primary_key_ok (fst (add_transaction c f True))"
  by (simp add: add_transaction_fst primary_key_ok_insert_row)

lemma primary_key_ok_add_transactions:
  "primary_key_ok c \<Longrightarrow> primary_key_ok (add_transactions c fs)"
  by (induction fs arbitrary: c) (simp_all add: primary_key_ok_add_transaction)

lemma add_transactions_append:
  "add_transactions c (fs @ gs) = add_transactions (add_transactions c fs) gs"
  by (induction fs arbitrary: c) simp_all

lemma invariant_add_transaction:
  assumes "primary_key_ok c" and "\<forall>b. prefix_sum_invariant c b"
  shows "prefix_sum_invariant (fst (add_transaction c f True)) b"
proof (cases "accepted f")
  case False
  with assms show ?thesis by (simp add: add_transaction_fst)
next
  case True
  let ?c1 = "insert_row c (inserted_row c f)"
  have pk1: "primary_key_ok ?c1" by (rule primary_key_ok_insert_row [OF assms(1)])
  show ?thesis
  proof (cases "b = buyer_name f")
    case True
    with \<open>accepted f\<close> pk1 show ?thesis
      by (simp add: add_transaction_fst prefix_sum_invariant_recalculate)
  next
    case False
    then have "select_credit_rows ?c1 b = select_credit_rows c b"
      by (simp add: select_credit_rows_insert_row inserted_row_def)
    then have "prefix_sum_invariant ?c1 b = prefix_sum_invariant c b"
      by (simp add: prefix_sum_invariant_def)
    with \<open>accepted f\<close> pk1 False assms(2) show ?thesis
      by (simp add: add_transaction_fst prefix_sum_invariant_recalculate_other)
  qed
qed

lemma invariant_add_transactions:
  "primary_key_ok c \<Longrightarrow> \<forall>b. prefix_sum_invariant c b
     \<Longrightarrow> prefix_sum_invariant (add_transactions c fs) b"
proof (induction fs arbitrary: c)
  case Nil
  then show ?case by simp
next
  case (Cons f fs)
  show ?case
    using Cons.prems
    by (simp add: Cons.IH primary_key_ok_add_transaction invariant_add_transaction)
qed

lemma init_db_ok: "primary_key_ok init_db" "prefix_sum_invariant init_db b"
  "credit_entries init_db b = []" "next_id init_db = 1"
  by (simp_all add: primary_key_ok_def init_db_def prefix_sum_invariant_def
      select_credit_rows_def prefix_sums_def credit_entries_def next_id_def)

lemma next_id_recalculate [simp]: "next_id (recalculate_debts c b) = next_id c"
  by (simp add: next_id_def recalculate_debts_rows comp_def)

lemma next_id_insert_row: "next_id c < next_id (insert_row c r)"
proof -
  have "r\<lparr>RowId := next_id c\<rparr> \<in> set (DailySheet (insert_row c r))"
    by (simp add: insert_row_def)
  from next_id_fresh [OF this] show ?thesis by simp
qed

lemma next_id_add_transaction:
  "next_id c \<le> next_id (fst (add_transaction c f True))"
  "accepted f \<Longrightarrow> next_id c < next_id (fst (add_transaction c f True))"
  using next_id_insert_row [of c "inserted_row c f"] by (simp_all add: add_transaction_fst)

lemma credit_entries_add_transaction:
  "credit_entries (fst (add_transaction c f True)) b =
     credit_entries c b @
       (if accepted f \<and> debit_credit f = ''Credit'' \<and> buyer_name f = b
        then [(next_id c, qty f * rate f)] else [])"
  by (simp add: add_transaction_fst credit_entries_def select_credit_rows_recalculate
      select_credit_rows_insert_row comp_def inserted_row_def)

lemma credit_entries_fresh:
  "p \<in> set (credit_entries c b) \<Longrightarrow> fst p < next_id c"
  by (auto simp: credit_entries_def select_credit_rows_set next_id_fresh)

lemma credit_entries_add_transactions:
  "\<exists>news. credit_entries (add_transactions c fs) b = credit_entries c b @ news
      \<and> (\<forall>p\<in>set news. next_id c \<le> fst p)
      \<and> map snd news = credit_amounts fs b
      \<and> next_id c \<le> next_id (add_transactions c fs)"
proof (induction fs arbitrary: c)
  case Nil
  show ?case by (simp add: credit_amounts_def)
next
  case (Cons f fs)
  let ?c = "fst (add_transaction c f True)"
  let ?one = "if accepted f \<and> debit_credit f = ''Credit'' \<and> buyer_name f = b
        then [(next_id c, qty f * rate f)] else []"
  from Cons.IH [of ?c] obtain news where n:
    "credit_entries (add_transactions ?c fs) b = credit_entries ?c b @ news"
    "\<forall>p\<in>set news. next_id ?c \<le> fst p"
    "map snd news = credit_amounts fs b"
    "next_id ?c \<le> next_id (add_transactions ?c fs)"
    by blast
  have le: "next_id c \<le> next_id ?c" by (rule next_id_add_transaction)
  have "credit_entries (add_transactions c (f # fs)) b = credit_entries c b @ (?one @ news)"
    by (simp add: n(1) credit_entries_add_transaction)
  moreover have "\<forall>p\<in>set (?one @ news). next_id c \<le> fst p"
    using n(2) le by auto
  moreover have "map snd (?one @ news) = credit_amounts (f # fs) b"
    using n(3) by (simp add: credit_amounts_def)
  moreover have "next_id c \<le> next_id (add_transactions c (f # fs))"
    using n(4) le by simp
  ultimately show ?case by blast
qed


lemma select_credit_rows_delete_row:
  "select_credit_rows (delete_row c i) b = filter (\<lambda>r. RowId r \<noteq> i) (select_credit_rows c b)"
  by (simp add: select_credit_rows_def delete_row_def filter_sort conj_commute)

lemma find_by_id:
  assumes "primary_key_ok c" and "r \<in> set (DailySheet c)"
  shows "find (\<lambda>x. RowId x = RowId r) (DailySheet c) = Some r"
proof (cases "find (\<lambda>x. RowId x = RowId r) (DailySheet c)")
  case None
  with assms(2) show ?thesis by (auto simp: find_None_iff)
next
  case (Some x)
  then have "x \<in> set (DailySheet c)" "RowId x = RowId r"
    by (auto simp: find_Some_iff)
  moreover from assms(1) have "inj_on RowId (set (DailySheet c))"
    by (simp add: primary_key_ok_def distinct_map)
  ultimately have "x = r" using assms(2) by (auto dest: inj_onD)
  with Some show ?thesis by simp
qed

lemma credit_amounts_append:
  "credit_amounts (fs @ gs) b = credit_amounts fs b @ credit_amounts gs b"
  by (simp add: credit_amounts_def)

lemma history_debts:
  "map Amount (select_credit_rows (add_transactions init_db fs) b) = credit_amounts fs b"
  "map Debt (select_credit_rows (add_transactions init_db fs) b) = prefix_sums (credit_amounts fs b)"
proof -
  from credit_entries_add_transactions [of init_db fs b]
  have "map snd (credit_entries (add_transactions init_db fs) b) = credit_amounts fs b"
    by (auto simp: init_db_ok)
  then show a: "map Amount (select_credit_rows (add_transactions init_db fs) b) = credit_amounts fs b"
    by (simp add: credit_entries_def comp_def)
  have "prefix_sum_invariant (add_transactions init_db fs) b"
    by (rule invariant_add_transactions) (simp_all add: init_db_ok)
  then show "map Debt (select_credit_rows (add_transactions init_db fs) b)
      = prefix_sums (credit_amounts fs b)"
    by (simp add: prefix_sum_invariant_def a)
qed

text \<open>
  C3. Start from the empty ledger and submit the add form for the entries \<open>fs1\<close>, then for
  an accepted Credit entry \<open>f\<close> of buyer \<open>b\<close>, then for the entries \<open>fs2\<close>. The row of \<open>f\<close> has
  the \<^verbatim>\<open>Id\<close> that was next after \<open>fs1\<close>. When that row is then deleted with the Delete button
  of the edit form, which recalculates \<open>b\<close>, the remaining Credit rows of \<open>b\<close> carry the same
  amounts and the same debts, in the same order, as after submitting \<open>fs1\<close> and \<open>fs2\<close> only.
\<close>

theorem deletion_rebalances:
  assumes acc: "name f \<noteq> []" "flower_name f \<noteq> []"
    and cr: "debit_credit f = ''Credit''" "buyer_name f = b" "b \<noteq> []"
    and run: "edit_transaction (add_transactions init_db (fs1 @ f # fs2)) customers flowers buyers
                (next_id (add_transactions init_db fs1)) g (Some Delete) = Inr (conn', msg)"
  shows "(next_id (add_transactions init_db fs1), qty f * rate f)
           \<in> set (map (\<lambda>r. (RowId r, Amount r))
                (select_credit_rows (add_transactions init_db (fs1 @ f # fs2)) b))
       \<and> map Amount (select_credit_rows conn' b)
           = map Amount (select_credit_rows (add_transactions init_db (fs1 @ fs2)) b)
       \<and> map Debt (select_credit_rows conn' b)
           = map Debt (select_credit_rows (add_transactions init_db (fs1 @ fs2)) b)"
proof -
  define c1 where "c1 = add_transactions init_db fs1"
  define i where "i = next_id c1"
  define c2 where "c2 = fst (add_transaction c1 f True)"
  define c3 where "c3 = add_transactions c2 fs2"
  have c3: "add_transactions init_db (fs1 @ f # fs2) = c3"
    by (simp add: add_transactions_append c1_def c2_def c3_def)
  have af: "accepted f" using acc cr by (simp add: accepted_def)
  from credit_entries_add_transactions [of init_db fs1 b]
  obtain e1 where e1: "credit_entries c1 b = e1" "map snd e1 = credit_amounts fs1 b"
    "1 \<le> i"
    by (auto simp: init_db_ok c1_def i_def)
  have e1_lt: "\<forall>p\<in>set e1. fst p < i"
    using credit_entries_fresh [of _ c1 b] by (simp add: e1(1) i_def)
  have e2: "credit_entries c2 b = e1 @ [(i, qty f * rate f)]"
    using af cr by (simp add: c2_def credit_entries_add_transaction e1(1) i_def)
  have i2: "i < next_id c2"
    unfolding c2_def i_def by (rule next_id_add_transaction(2) [OF af])
  from credit_entries_add_transactions [of c2 fs2 b]
  obtain e3 where e3: "credit_entries c3 b = e1 @ [(i, qty f * rate f)] @ e3"
    "\<forall>p\<in>set e3. next_id c2 \<le> fst p" "map snd e3 = credit_amounts fs2 b"
    by (auto simp: c3_def e2)
  have rest: "filter (\<lambda>p. fst p \<noteq> i) (credit_entries c3 b) = e1 @ e3"
  proof -
    have "filter (\<lambda>p. fst p \<noteq> i) e1 = e1" using e1_lt by (auto simp: filter_id_conv)
    moreover have "filter (\<lambda>p. fst p \<noteq> i) e3 = e3"
      using e3(2) i2 by (auto simp: filter_id_conv)
    ultimately show ?thesis by (simp add: e3(1))
  qed
  have mem: "(i, qty f * rate f) \<in> set (credit_entries c3 b)"
    by (simp add: e3(1))
  then obtain r where r: "r \<in> set (select_credit_rows c3 b)" "RowId r = i"
    by (auto simp: credit_entries_def)
  then have r_in: "r \<in> set (DailySheet c3)" and r_b: "BuyerName r = b"
    by (simp_all add: select_credit_rows_set)
  have pk3: "primary_key_ok c3"
    unfolding c3_def c2_def c1_def
    by (intro primary_key_ok_add_transactions primary_key_ok_add_transaction init_db_ok)
  have fnd: "find (\<lambda>x. RowId x = i) (DailySheet c3) = Some r"
    using find_by_id [OF pk3 r_in] r(2) by simp
  have ne: "DailySheet c3 \<noteq> []" "i \<noteq> 0"
    using r_in e1(3) by auto
  have conn': "conn' = recalculate_debts (delete_row c3 i) b"
    using run ne fnd r_b
    by (simp add: c3 c1_def [symmetric] i_def [symmetric] edit_transaction_def Let_def
        split: if_splits)
  have pkd: "primary_key_ok (delete_row c3 i)"
    by (rule primary_key_ok_delete_row [OF pk3])
  have "map Amount (select_credit_rows (delete_row c3 i) b)
      = map snd (filter (\<lambda>p. fst p \<noteq> i) (credit_entries c3 b))"
    by (simp add: select_credit_rows_delete_row credit_entries_def filter_map comp_def)
  then have am: "map Amount (select_credit_rows (delete_row c3 i) b)
      = credit_amounts (fs1 @ fs2) b"
    by (simp add: rest e1(2) e3(3) credit_amounts_append)
  have amounts: "map Amount (select_credit_rows conn' b) = credit_amounts (fs1 @ fs2) b"
    by (simp add: conn' select_credit_rows_recalculate comp_def am)
  have "prefix_sum_invariant conn' b"
    unfolding conn' by (rule prefix_sum_invariant_recalculate [OF pkd])
  then have debts: "map Debt (select_credit_rows conn' b) = prefix_sums (credit_amounts (fs1 @ fs2) b)"
    by (simp add: prefix_sum_invariant_def amounts)
  from mem amounts debts show ?thesis
    by (simp add: c3 c1_def [symmetric] i_def [symmetric] history_debts
        credit_entries_def [symmetric])
qed


lemmas eval_defs = add_transaction_def init_db_def insert_row_def next_id_def
  recalculate_debts_def select_credit_rows_def update_debt_def current_debt_def
  SignedAmount_def Let_def credit_form_a_def credit_form_b_def credit_form_c_def

theorem deletion_rebalances_witness:
  "name credit_form_b \<noteq> [] \<and> flower_name credit_form_b \<noteq> []
   \<and> debit_credit credit_form_b = ''Credit'' \<and> buyer_name credit_form_b = ''B1''
   \<and> next_id (add_transactions init_db [credit_form_a]) = 2
   \<and> edit_transaction (add_transactions init_db ([credit_form_a] @ credit_form_b # [credit_form_c]))
        [''Mani''] [''Rose'', ''Lily''] [''B1''] 2 credit_form_b (Some Delete)
       = Inr (ledger_after_delete, None)
   \<and> map Debt (select_credit_rows
        (add_transactions init_db ([credit_form_a] @ credit_form_b # [credit_form_c])) ''B1'')
       = [100, 300, 350]
   \<and> map Debt (select_credit_rows ledger_after_delete ''B1'') = [100, 150]
   \<and> map Debt (select_credit_rows (add_transactions init_db ([credit_form_a] @ [credit_form_c]))
        ''B1'') = [100, 150]"
proof -
  have h: "name credit_form_b \<noteq> []" "flower_name credit_form_b \<noteq> []"
    "debit_credit credit_form_b = ''Credit''" "buyer_name credit_form_b = ''B1''" "''B1'' \<noteq> []"
    by (simp_all add: credit_form_b_def)
  have n: "next_id (add_transactions init_db [credit_form_a]) = 2"
    by (simp add: eval_defs)
  have full: "map Debt (select_credit_rows
        (add_transactions init_db ([credit_form_a] @ credit_form_b # [credit_form_c])) ''B1'')
       = [100, 300, 350]"
    by (simp add: eval_defs)
  have run: "edit_transaction (add_transactions init_db ([credit_form_a] @ credit_form_b # [credit_form_c]))
        [''Mani''] [''Rose'', ''Lily''] [''B1''] 2 credit_form_b (Some Delete)
       = Inr (ledger_after_delete, None)"
    by (simp add: eval_defs edit_transaction_def delete_row_def ledger_after_delete_def)
  have d: "map Debt (select_credit_rows ledger_after_delete ''B1'') = [100, 150]"
    by (simp add: select_credit_rows_def ledger_after_delete_def)
  from deletion_rebalances [OF h, of "[credit_form_a]" "[credit_form_c]" "[''Mani'']" "[''Rose'', ''Lily'']"
      "[''B1'']" credit_form_b ledger_after_delete None] n run
  show ?thesis using h n run full d by simp
qed

end
